theory Spec2Isabelle
  imports Complex_Main "HOL-Library.Word"
begin

section \<open>Library functions the client calls\<close>

subsection \<open>Go's \<open>strings\<close> package: Index, Count, SplitN\<close>

text \<open>
  A Go string is a sequence of bytes; \<open>string\<close> (a list of \<open>char\<close>) models it.
  \<open>strings.Index(s, substr)\<close> is the position of the first occurrence of \<open>substr\<close> in
  \<open>s\<close>, or \<open>-1\<close>; the model returns \<open>None\<close> for \<open>-1\<close>.
\<close>

fun Index :: "string \<Rightarrow> string \<Rightarrow> nat option" where
  "Index [] substr = (if substr = [] then Some 0 else None)"
| "Index (c # cs) substr =
     (if take (length substr) (c # cs) = substr then Some 0
      else map_option Suc (Index cs substr))"

lemma Index_Some_bound: "Index s substr = Some i \<Longrightarrow> i + length substr \<le> length s"
proof (induction s arbitrary: i)
  case Nil
  then show ?case by (simp split: if_splits)
next
  case (Cons c cs)
  show ?case
  proof (cases "take (length substr) (c # cs) = substr")
    case True
    then have "length (take (length substr) (c # cs)) = length substr"
      by simp
    then have "length substr \<le> length (c # cs)"
      by simp
    with True Cons.prems show ?thesis by simp
  next
    case False
    with Cons.prems obtain j where j: "Index cs substr = Some j" "i = Suc j"
      by auto
    with Cons.IH [of j] show ?thesis by simp
  qed
qed

text \<open>
  \<open>strings.Count(s, substr)\<close>: the number of non-overlapping occurrences. The loop of the
  library, with its counter \<open>n\<close>:
  \<^verbatim>\<open>
  n := 0
  for {
      i := Index(s, substr)
      if i == -1 { return n }
      n++
      s = s[i+len(substr):]
  }
  \<close>
  (for an empty \<open>substr\<close> the library returns the number of runes plus one; a \<open>char\<close> is taken
  as one rune there).
\<close>

function Count_loop :: "nat \<Rightarrow> string \<Rightarrow> string \<Rightarrow> nat" where
  "Count_loop n s substr =
     (if substr = [] then n
      else case Index s substr of
             None \<Rightarrow> n
           | Some i \<Rightarrow> Count_loop (n + 1) (drop (i + length substr) s) substr)"
  by pat_completeness auto
termination
proof (relation "measure (\<lambda>(n, s, substr). length s)")
  show "wf (measure (\<lambda>(n, s, substr). length s))" by simp
next
  fix n :: nat and s substr :: string and i :: nat
  assume ne: "substr \<noteq> []" and ix: "Index s substr = Some i"
  from ne have "0 < length substr" by simp
  with Index_Some_bound [OF ix] have "0 < length s \<and> 0 < i + length substr"
    by arith
  then show "((n + 1, drop (i + length substr) s, substr), (n, s, substr))
               \<in> measure (\<lambda>(n, s, substr). length s)"
    by simp
qed

declare Count_loop.simps [simp del]

definition Count :: "string \<Rightarrow> string \<Rightarrow> nat" where
  "Count s substr = (if substr = [] then length s + 1 else Count_loop 0 s substr)"

text \<open>
  \<open>strings.SplitN(s, sep, n)\<close> is \<open>genSplit(s, sep, 0, n)\<close>:
  \<^verbatim>\<open>
  if n == 0 { return nil }
  if sep == "" { return explode(s, n) }
  if n < 0 { n = Count(s, sep) + 1 }
  a := make([]string, n)
  n--
  i := 0
  for i < n {
      m := Index(s, sep)
      if m < 0 { break }
      a[i] = s[:m+sepSave]
      s = s[m+len(sep):]
      i++
  }
  a[i] = s
  return a[:i+1]
  \<close>
  \<open>genSplit_loop k s sep\<close> is the loop with \<open>k = n - i\<close> rounds left, returning the slice
  from position \<open>i\<close> on. \<open>explode\<close> cuts \<open>s\<close> into its runes (one \<open>char\<close> each here), the
  last piece taking the rest.
\<close>

fun genSplit_loop :: "nat \<Rightarrow> string \<Rightarrow> string \<Rightarrow> string list" where
  "genSplit_loop 0 s sep = [s]"
| "genSplit_loop (Suc k) s sep =
     (case Index s sep of
        None \<Rightarrow> [s]
      | Some m \<Rightarrow> take m s # genSplit_loop k (drop (m + length sep) s) sep)"

definition explode :: "string \<Rightarrow> int \<Rightarrow> string list" where
  "explode s n =
     (let l = length s;
          n' = (if n < 0 \<or> int l < n then l else nat n)
      in if n' = 0 then []
         else map (\<lambda>c. [c]) (take (n' - 1) s) @ [drop (n' - 1) s])"

definition SplitN :: "string \<Rightarrow> string \<Rightarrow> int \<Rightarrow> string list" where
  "SplitN s sep n =
     (if n = 0 then []
      else if sep = [] then explode s n
      else let n' = (if n < 0 then Count s sep + 1 else nat n)
           in genSplit_loop (n' - 1) s sep)"

text \<open>
  What "splitting at every comma" means is fixed by \<open>strings.Join\<close>: the pieces, put
  together again with the separator between them, are the string, and no piece holds
  a separator.
\<close>

fun Join :: "string list \<Rightarrow> string \<Rightarrow> string" where
  "Join [] sep = []"
| "Join [x] sep = x"
| "Join (x # y # ys) sep = x @ sep @ Join (y # ys) sep"

subsection \<open>go-ethereum's \<open>common.IsHexAddress\<close>\<close>

text \<open>
  \<^verbatim>\<open>
  func IsHexAddress(s string) bool {
      if has0xPrefix(s) { s = s[2:] }
      return len(s) == 2*AddressLength && isHex(s)
  }
  \<close>
  with \<open>AddressLength = 20\<close>; \<open>has0xPrefix\<close> accepts \<open>0x\<close> and \<open>0X\<close>, \<open>isHex\<close> wants an
  even number of hexadecimal digits.
\<close>

definition has0xPrefix :: "string \<Rightarrow> bool" where
  "has0xPrefix str \<longleftrightarrow>
     length str \<ge> 2 \<and> str ! 0 = CHR ''0'' \<and> (str ! 1 = CHR ''x'' \<or> str ! 1 = CHR ''X'')"

definition isHexCharacter :: "char \<Rightarrow> bool" where
  "isHexCharacter c \<longleftrightarrow> c \<in> set ''0123456789abcdefABCDEF''"

definition isHex :: "string \<Rightarrow> bool" where
  "isHex str \<longleftrightarrow> length str mod 2 = 0 \<and> list_all isHexCharacter str"

definition IsHexAddress :: "string \<Rightarrow> bool" where
  "IsHexAddress s =
     (let s' = (if has0xPrefix s then drop 2 s else s)
      in length s' = 2 * 20 \<and> isHex s')"

section \<open>The data of the client\<close>

text \<open>
  The errors the client returns: its own three, the keeper package's, and any error that
  comes from the operating system, the JSON decoder, the RPC connection or the keystore,
  kept by its message.
\<close>

datatype error =
    ErrNotValidAccountFile
  | ErrNotDirectory
  | ErrInvalidAddress
  | ErrAccountNotFound
  | ErrOther string

text \<open>
  A balance is a \<open>float64\<close> in the code. It is modelled by the number it stands for: the
  conversion from a \<open>big.Float\<close> never yields a NaN, and on numbers Go's \<open>!=\<close> is
  inequality of the values (\<open>-0\<close> and \<open>+0\<close> compare equal, as they do here).

  The payload of an event is a \<open>map[string]interface{}\<close>; the values the watcher puts in
  are strings and balances.
\<close>

datatype payload_value = PString string | PFloat real

text \<open>
  The watcher hands the payload to \<open>notifier.NewEthBalanceChangeEvent\<close> and sends what it
  gets on the notifier's channel. The model keeps the call as a constructor applied to
  its argument: an event is known by the payload the watcher gave it.
\<close>

datatype event = NewEthBalanceChangeEvent "string \<rightharpoonup> payload_value"

fun payload :: "event \<Rightarrow> (string \<rightharpoonup> payload_value)" where
  "payload (NewEthBalanceChangeEvent m) = m"

text \<open>
  A transaction as \<open>types.NewTransaction\<close> builds it; \<open>signature\<close> is empty until the
  keystore has signed it. An address (\<open>common.Address\<close>) is 20 bytes.
\<close>

record transaction =
  nonce :: "64 word"
  toAddress :: "160 word"
  amount :: int
  gasLimit :: "64 word"
  gasPrice :: int
  payloadData :: "8 word list"
  signature :: "8 word list"

definition NewTransaction ::
  "64 word \<Rightarrow> 160 word \<Rightarrow> int \<Rightarrow> 64 word \<Rightarrow> int \<Rightarrow> 8 word list \<Rightarrow> transaction" where
  "NewTransaction n t v gl gp d =
     \<lparr>nonce = n, toAddress = t, amount = v, gasLimit = gl, gasPrice = gp,
      payloadData = d, signature = []\<rparr>"

text \<open>
  What the client does to the outside, in the order it does it: a line in a log, an event
  sent on the notifier's channel, a write to \<open>accountBalanceMap\<close>, a transaction handed
  to \<open>SendTransaction\<close>.
\<close>

datatype action =
    Log error
  | Send event
  | Store string real
  | SendTx transaction

text \<open>
  The fields of \<open>Client\<close> that the operations below read and write: the two maps. The
  logger, the keystore, the RPC connection and the notifier are reached through \<open>env\<close>
  and \<open>effects\<close>; the two mutexes guard single map writes and have no counterpart in a
  sequential model.
\<close>

record client =
  accountAddressMap :: "string \<rightharpoonup> string"
  accountBalanceMap :: "string \<rightharpoonup> real"
  effects :: "action list"

text \<open>
  The world outside the file: the Ethereum node behind \<open>ethRpcClient\<close>, the keystore,
  go-ethereum's \<open>common.HexToAddress\<close>, and the helpers of the package that are missing
  from the source files (\<open>weiToEther\<close>, \<open>etherToWei\<close>, \<open>PendingNonceAt\<close>,
  \<open>SuggestGasPrice\<close>, \<open>NetworkID\<close>, \<open>SendTransaction\<close>), each taken as it answers. \<open>weiToEther\<close> includes the final
  \<open>Float64()\<close>. An \<open>env\<close> holds the answers during one call of an operation: within one
  sweep the node gives an address one answer.
\<close>

record env =
  HexToAddress :: "string \<Rightarrow> 160 word"
  eth_getBalance :: "160 word \<Rightarrow> error + int"
  weiToEther :: "int \<Rightarrow> real"
  etherToWei :: "real \<Rightarrow> int"
  PendingNonceAt :: "160 word \<Rightarrow> error + 64 word"
  SuggestGasPrice :: "error + int"
  NetworkID :: "error + int"
  SignTx :: "160 word \<Rightarrow> transaction \<Rightarrow> int \<Rightarrow> error + transaction"
  SendTransaction :: "transaction \<Rightarrow> error option"

definition perform :: "action \<Rightarrow> client \<Rightarrow> client" where
  "perform a c = c\<lparr>effects := effects c @ [a]\<rparr>"

definition logError :: "error option \<Rightarrow> client \<Rightarrow> client" where
  "logError err c = (case err of None \<Rightarrow> c | Some e \<Rightarrow> perform (Log e) c)"

definition storeBalance :: "string \<Rightarrow> real \<Rightarrow> client \<Rightarrow> client" where
  "storeBalance account b c =
     perform (Store account b) (c\<lparr>accountBalanceMap := (accountBalanceMap c)(account \<mapsto> b)\<rparr>)"

section \<open>getBalance\<close>

text \<open>
  Go returns the pair \<open>(float64, error)\<close>; on an error of the call the balance returned
  is \<open>0\<close>. The model returns the same pair, \<open>None\<close> for a nil error.
\<close>

definition getBalance :: "env \<Rightarrow> string \<Rightarrow> real \<times> error option" where
  "getBalance env address =
     (case eth_getBalance env (HexToAddress env address) of
        Inl err \<Rightarrow> (0, Some err)
      | Inr balance \<Rightarrow> (weiToEther env balance, None))"

section \<open>The balance watcher\<close>

text \<open>
  \<open>refreshAccount\<close> is the body of the loop of \<open>refreshFunc\<close> for one key of
  \<open>accountBalanceMap\<close>; \<open>balance\<close> is the value the \<open>range\<close> reads for the key when it
  reaches it. Go visits the keys of a map in an order it does not fix, each key once:
  \<open>refreshFunc\<close> takes the order \<open>ks\<close> of the visit.
\<close>

definition refreshAccount :: "env \<Rightarrow> string \<Rightarrow> client \<Rightarrow> client" where
  "refreshAccount env account c =
     (case accountBalanceMap c account of
        None \<Rightarrow> c
      | Some balance \<Rightarrow>
          (case accountAddressMap c account of
             None \<Rightarrow> c
           | Some address \<Rightarrow>
               (let (newBalance, err) = getBalance env address;
                    c1 = logError err c
                in if balance \<noteq> newBalance then
                     (let event = NewEthBalanceChangeEvent
                            [''account'' \<mapsto> PString account,
                             ''address'' \<mapsto> PString address,
                             ''newBalance'' \<mapsto> PFloat newBalance,
                             ''balance'' \<mapsto> PFloat balance];
                          c2 = perform (Send event) c1
                      in storeBalance account newBalance c2)
                   else c1)))"

definition refreshFunc :: "env \<Rightarrow> string list \<Rightarrow> client \<Rightarrow> client" where
  "refreshFunc env ks c = fold (refreshAccount env) ks c"

text \<open>The event of the loop's body, under a name for the proofs.\<close>

definition changeEvent :: "string \<Rightarrow> string \<Rightarrow> real \<Rightarrow> real \<Rightarrow> event" where
  "changeEvent account address newBalance balance =
     NewEthBalanceChangeEvent
       [''account'' \<mapsto> PString account,
        ''address'' \<mapsto> PString address,
        ''newBalance'' \<mapsto> PFloat newBalance,
        ''balance'' \<mapsto> PFloat balance]"

text \<open>What was done between a state and a later one.\<close>

definition performed :: "client \<Rightarrow> client \<Rightarrow> action list" where
  "performed c c' = drop (length (effects c)) (effects c')"

text \<open>An action is about an account: an event with the account in its payload, a write
  to the account's balance.\<close>

fun about :: "string \<Rightarrow> action \<Rightarrow> bool" where
  "about account (Send ev) = (payload ev ''account'' = Some (PString account))"
| "about account (Store a b) = (a = account)"
| "about account (Log e) = False"
| "about account (SendTx t) = False"

section \<open>NewClient\<close>

text \<open>
  What the operating system and the network answer while \<open>NewClient\<close> runs: \<open>os.Stat\<close> of
  the account file (whether it is a regular file), \<open>loadAccountMap\<close> (the decoded map),
  \<open>os.Stat\<close> of the wallet directory (whether it is a directory), \<open>rpc.Dial\<close> and the
  opening of the log file.
\<close>

record startup =
  statAccountFile :: "error + bool"
  loadAccountMap :: "error + (string \<rightharpoonup> string)"
  statWalletDir :: "error + bool"
  rpcDial :: "error option"
  openLogFile :: "error option"

text \<open>The body of the loop that fills \<open>accountBalanceMap\<close>, for one key of \<open>accountAddressMap\<close>.\<close>

definition seedAccount :: "env \<Rightarrow> string \<Rightarrow> client \<Rightarrow> client" where
  "seedAccount env account c =
     (case accountAddressMap c account of
        None \<Rightarrow> c
      | Some address \<Rightarrow>
          (let (balance, err) = getBalance env address;
               c1 = logError err c
           in storeBalance account balance c1))"

text \<open>
  \<open>NewClient\<close> up to the two goroutines it starts (the notifier and the watcher, which run
  after it has returned the client). \<open>ks\<close> is the order in which the \<open>range\<close> visits the
  keys of \<open>accountAddressMap\<close>.
\<close>

definition NewClient :: "startup \<Rightarrow> env \<Rightarrow> string list \<Rightarrow> error + client" where
  "NewClient os env ks =
     (case statAccountFile os of
        Inl err \<Rightarrow> Inl err
      | Inr isRegular \<Rightarrow>
          if \<not> isRegular then Inl ErrNotValidAccountFile
          else case loadAccountMap os of
            Inl err \<Rightarrow> Inl err
          | Inr m \<Rightarrow>
              (case statWalletDir os of
                 Inl err \<Rightarrow> Inl ErrNotDirectory
               | Inr isDir \<Rightarrow>
                   if \<not> isDir then Inl ErrNotDirectory
                   else case rpcDial os of
                     Some err \<Rightarrow> Inl err
                   | None \<Rightarrow>
                       (case openLogFile os of
                          Some err \<Rightarrow> Inl err
                        | None \<Rightarrow>
                            Inr (fold (seedAccount env) ks
                                   \<lparr>accountAddressMap = m,
                                    accountBalanceMap = Map.empty,
                                    effects = []\<rparr>))))"

section \<open>ListAccountsMinConf\<close>

text \<open>The body of the loop: \<open>accounts\<close> is the map being built.\<close>

definition listAccount ::
  "env \<Rightarrow> string \<Rightarrow> (string \<rightharpoonup> real) \<times> client \<Rightarrow> (string \<rightharpoonup> real) \<times> client" where
  "listAccount env name st =
     (let (accounts, c) = st
      in case accountAddressMap c name of
           None \<Rightarrow> (accounts, c)
         | Some address \<Rightarrow>
             (let (balance, err) = getBalance env address
              in case err of
                   Some e \<Rightarrow> (accounts(name \<mapsto> 0), perform (Log e) c)
                 | None \<Rightarrow> (accounts(name \<mapsto> balance), c)))"

text \<open>The result is Go's pair \<open>(map, error)\<close>, and the client with what was logged.\<close>

definition ListAccountsMinConf ::
  "env \<Rightarrow> string list \<Rightarrow> int \<Rightarrow> client \<Rightarrow> ((string \<rightharpoonup> real) \<times> error option) \<times> client" where
  "ListAccountsMinConf env ks conf c =
     (let (accounts, c') = fold (listAccount env) ks (Map.empty, c)
      in ((accounts, None), c'))"

section \<open>SendFrom\<close>

text \<open>
  The first \<open>if\<close> declares a second \<open>hexFromAddress\<close> with \<open>:=\<close>, local to its block: the
  address found in the map is bound to it and dropped (\<open>inner\<close> below), and the checks
  after the block read the outer variable, which is still \<open>account\<close>. The result is the
  error returned (\<open>None\<close> for nil) and what the call did.
\<close>

definition SendFrom ::
  "env \<Rightarrow> client \<Rightarrow> string \<Rightarrow> string \<Rightarrow> real \<Rightarrow> error option \<times> action list" where
  "SendFrom env c account hexToAddress amt =
     (let hexFromAddress = account;
          notFound = (if \<not> IsHexAddress account
                      then (case accountAddressMap c account of
                              None \<Rightarrow> True
                            | Some inner \<Rightarrow> False)
                      else False)
      in if notFound then (Some ErrInvalidAddress, [])
         else if \<not> IsHexAddress hexFromAddress then (Some ErrInvalidAddress, [])
         else if \<not> IsHexAddress hexToAddress then (Some ErrInvalidAddress, [])
         else
           (let fromAddress = HexToAddress env hexFromAddress;
                toAddr = HexToAddress env hexToAddress
            in case PendingNonceAt env fromAddress of
                 Inl err \<Rightarrow> (Some err, [Log err])
               | Inr n \<Rightarrow>
                   (let v = etherToWei env amt;
                        gl = 21000
                    in case SuggestGasPrice env of
                         Inl err \<Rightarrow> (Some err, [Log err])
                       | Inr gp \<Rightarrow>
                           (case NetworkID env of
                              Inl err \<Rightarrow> (Some err, [Log err])
                            | Inr chainID \<Rightarrow>
                                (let tx = NewTransaction n toAddr v gl gp []
                                 in case SignTx env fromAddress tx chainID of
                                      Inl err \<Rightarrow> (Some err, [Log err])
                                    | Inr signedTx \<Rightarrow>
                                        (case SendTransaction env signedTx of
                                           Some err \<Rightarrow> (Some err, [SendTx signedTx, Log err])
                                         | None \<Rightarrow> (None, [SendTx signedTx])))))))"

section \<open>The install route\<close>

text \<open>
  The struct the handler of \<open>POST /notifiers/install\<close> binds the request to (\<open>uint\<close> has
  64 bits on the platforms the service runs on).
\<close>

record installParams =
  RetryCount :: "64 word"
  Endpoint :: string
  EventTypes :: string

text \<open>
  The handler. \<open>bound\<close> is what \<open>c.ShouldBind(&installParams)\<close> answers: its error, or the
  struct it has filled. \<open>uuidIns\<close> is the string of the UUID that \<open>uuid.NewUUID\<close> returns
  (its error is dropped by the code). \<open>newReceiver\<close> and \<open>installReceiver\<close> stand for
  \<open>notifier.NewReceiver\<close> and the notifier's \<open>InstallReceiver\<close>, whatever they do. The
  result is the notifier and the responses the handler has written, as pairs of a
  status and a body: it writes none.
\<close>

definition installHandler ::
  "(string \<Rightarrow> string list \<Rightarrow> 64 word \<Rightarrow> 'r) \<Rightarrow> (string \<Rightarrow> 'r \<Rightarrow> 'n \<Rightarrow> 'n) \<Rightarrow>
   string \<Rightarrow> error + installParams \<Rightarrow> 'n \<Rightarrow> 'n \<times> (nat \<times> string) list" where
  "installHandler newReceiver installReceiver uuidIns bound noti =
     (case bound of
        Inr params \<Rightarrow>
          (let r = newReceiver (Endpoint params)
                     (SplitN (EventTypes params) '','' (- 1))
                     (RetryCount params)
           in (installReceiver uuidIns r noti, []))
      | Inl err \<Rightarrow> (noti, []))"

text \<open>
  Modelled from the spec: the notifier package (\<open>notifier.NewReceiver\<close>, the \<open>Notifier\<close>
  and its \<open>InstallReceiver\<close>) is missing from the source files. By the spec a receiver
  is an endpoint, its event types and its retry budget; the registry maps a receiver's
  id to the receiver, and installing stores the receiver under the id.
\<close>

record receiver =
  endpoint :: string
  eventTypes :: "string list"
  retryCount :: "64 word"

definition NewReceiver :: "string \<Rightarrow> string list \<Rightarrow> 64 word \<Rightarrow> receiver" where
  "NewReceiver ep ets rc = \<lparr>endpoint = ep, eventTypes = ets, retryCount = rc\<rparr>"

record notifier =
  receivers :: "string \<rightharpoonup> receiver"

definition InstallReceiver :: "string \<Rightarrow> receiver \<Rightarrow> notifier \<Rightarrow> notifier" where
  "InstallReceiver name r noti = noti\<lparr>receivers := (receivers noti)(name \<mapsto> r)\<rparr>"

section \<open>A client and a node to run the operations on\<close>

text \<open>
  The scenario of the specification: the account \<open>alice\<close> at the address \<open>0xAAA\<close> with a
  balance of 10, and \<open>bob\<close> at \<open>0xBBB\<close> with 3. The node answers every balance request
  with \<open>answer\<close> for alice's address and with 3 ether for any other.
\<close>

definition alice_bob :: client where
  "alice_bob =
     \<lparr>accountAddressMap = [''alice'' \<mapsto> ''0xAAA'', ''bob'' \<mapsto> ''0xBBB''],
      accountBalanceMap = [''alice'' \<mapsto> 10, ''bob'' \<mapsto> 3],
      effects = []\<rparr>"

definition node :: "error + int \<Rightarrow> env" where
  "node answer =
     \<lparr>HexToAddress = (\<lambda>s. if s = ''0xAAA'' then 0xAAA else 0xBBB),
      eth_getBalance = (\<lambda>a. if a = 0xAAA then answer else Inr 3000000000000000000),
      weiToEther = (\<lambda>w. real_of_int w / 1000000000000000000),
      etherToWei = (\<lambda>x. \<lfloor>x * 1000000000000000000\<rfloor>),
      PendingNonceAt = (\<lambda>a. Inr 0),
      SuggestGasPrice = Inr 1,
      NetworkID = Inr 1,
      SignTx = (\<lambda>a tx chainID. Inr (tx\<lparr>signature := [1]\<rparr>)),
      SendTransaction = (\<lambda>tx. None)\<rparr>"

section \<open>Facts about splitting\<close>

lemma Index_Some_at: "Index s sep = Some m \<Longrightarrow> take (length sep) (drop m s) = sep"
proof (induction s arbitrary: m)
  case Nil then show ?case by (simp split: if_splits)
next
  case (Cons c cs)
  then show ?case by (auto split: if_splits)
qed

lemma Index_single_notin: "Index s [c] = Some m \<Longrightarrow> c \<notin> set (take m s)"
proof (induction s arbitrary: m)
  case Nil then show ?case by simp
next
  case (Cons a cs)
  then show ?case by (auto split: if_splits)
qed

lemma Index_single_None: "Index s [c] = None \<Longrightarrow> c \<notin> set s"
  by (induction s) (auto split: if_splits)

lemma genSplit_loop_ne: "genSplit_loop k s sep \<noteq> []"
  by (cases k) (auto split: option.splits)

lemma Join_Cons: "xs \<noteq> [] \<Longrightarrow> Join (x # xs) sep = x @ sep @ Join xs sep"
  by (cases xs) simp_all

lemma Index_Some_split:
  assumes "Index s sep = Some m"
  shows "take m s @ sep @ drop (m + length sep) s = s"
proof -
  have "drop m s = take (length sep) (drop m s) @ drop (length sep) (drop m s)"
    by (simp only: append_take_drop_id)
  also have "\<dots> = sep @ drop (m + length sep) s"
    using Index_Some_at [OF assms] by (simp add: add.commute)
  finally have "take m s @ sep @ drop (m + length sep) s = take m s @ drop m s"
    by simp
  then show ?thesis by simp
qed

lemma Join_genSplit_loop: "Join (genSplit_loop k s sep) sep = s"
proof (induction k arbitrary: s)
  case 0 show ?case by simp
next
  case (Suc k)
  show ?case
  proof (cases "Index s sep")
    case None then show ?thesis by simp
  next
    case (Some m)
    then show ?thesis
      using Suc.IH [of "drop (m + length sep) s"] Index_Some_split [OF Some]
      by (simp add: Join_Cons genSplit_loop_ne)
  qed
qed

lemma Count_loop_shift: "Count_loop (n + k) s sep = Count_loop n s sep + k"
proof (induction n s sep arbitrary: k rule: Count_loop.induct)
  case (1 n s substr)
  show ?case
  proof (cases "substr = []")
    case True then show ?thesis by (simp add: Count_loop.simps)
  next
    case False
    show ?thesis
    proof (cases "Index s substr")
      case None with False show ?thesis by (simp add: Count_loop.simps)
    next
      case (Some i)
      have "Count_loop (n + k) s substr = Count_loop (n + 1 + k) (drop (i + length substr) s) substr"
        using False Some by (subst Count_loop.simps) (simp add: add.commute add.left_commute)
      also have "\<dots> = Count_loop (n + 1) (drop (i + length substr) s) substr + k"
        using "1.IH" [OF False Some] .
      also have "Count_loop (n + 1) (drop (i + length substr) s) substr = Count_loop n s substr"
        using False Some by (subst (2) Count_loop.simps) simp
      finally show ?thesis .
    qed
  qed
qed

lemma Count_loop_Some:
  "sep \<noteq> [] \<Longrightarrow> Index s sep = Some m \<Longrightarrow>
   Count_loop 0 s sep = Suc (Count_loop 0 (drop (m + length sep) s) sep)"
  using Count_loop_shift [of 0 1 "drop (m + length sep) s" sep]
  by (subst Count_loop.simps) simp

lemma genSplit_loop_pieces:
  "Count_loop 0 s [c] \<le> k \<Longrightarrow> \<forall>p \<in> set (genSplit_loop k s [c]). c \<notin> set p"
proof (induction k arbitrary: s)
  case 0
  then have "Index s [c] = None"
    by (cases "Index s [c]") (simp_all add: Count_loop_Some)
  then show ?case by (simp add: Index_single_None)
next
  case (Suc k)
  show ?case
  proof (cases "Index s [c]")
    case None then show ?thesis by (simp add: Index_single_None)
  next
    case (Some m)
    with Suc.prems have "Count_loop 0 (drop (m + length [c]) s) [c] \<le> k"
      by (simp add: Count_loop_Some)
    from Suc.IH [OF this] Some show ?thesis
      by (simp add: Index_single_notin)
  qed
qed

lemma length_genSplit_loop:
  "sep \<noteq> [] \<Longrightarrow> Count_loop 0 s sep \<le> k \<Longrightarrow> length (genSplit_loop k s sep) = Count_loop 0 s sep + 1"
proof (induction k arbitrary: s)
  case 0
  then have "Index s sep = None"
    by (cases "Index s sep") (simp_all add: Count_loop_Some)
  with 0 show ?case by simp
next
  case (Suc k)
  show ?case
  proof (cases "Index s sep")
    case None with Suc.prems show ?thesis by (simp add: Count_loop.simps)
  next
    case (Some m)
    with Suc.prems have "Count_loop 0 (drop (m + length sep)  s) sep \<le> k"
      by (simp add: Count_loop_Some)
    from Suc.IH [OF Suc.prems(1) this] Some Suc.prems(1) show ?thesis
      by (simp add: Count_loop_Some)
  qed
qed

lemma SplitN_all:
  "Join (SplitN s [c] (- 1)) [c] = s \<and> (\<forall>p \<in> set (SplitN s [c] (- 1)). c \<notin> set p)
   \<and> length (SplitN s [c] (- 1)) = Count s [c] + 1"
  using genSplit_loop_pieces [of s c "Count_loop 0 s [c]"]
  by (simp add: SplitN_def Count_def Join_genSplit_loop length_genSplit_loop)

section \<open>Facts about the watcher\<close>

lemma effects_perform [simp]: "effects (perform a c) = effects c @ [a]"
  by (simp add: perform_def)

lemma maps_perform [simp]:
  "accountAddressMap (perform a c) = accountAddressMap c"
  "accountBalanceMap (perform a c) = accountBalanceMap c"
  by (simp_all add: perform_def)

lemma logError_simps [simp]:
  "accountAddressMap (logError err c) = accountAddressMap c"
  "accountBalanceMap (logError err c) = accountBalanceMap c"
  "logError None c = c"
  "effects (logError (Some e) c) = effects c @ [Log e]"
  by (simp_all add: logError_def split: option.splits)

lemma storeBalance_simps [simp]:
  "accountAddressMap (storeBalance a b c) = accountAddressMap c"
  "accountBalanceMap (storeBalance a b c) = (accountBalanceMap c)(a \<mapsto> b)"
  "effects (storeBalance a b c) = effects c @ [Store a b]"
  by (simp_all add: storeBalance_def)

text \<open>One round of the loop, described by what it leaves behind.\<close>

lemma refreshAccount_skip:
  "accountBalanceMap c account = None \<or> accountAddressMap c account = None \<Longrightarrow>
   refreshAccount env account c = c"
  by (auto simp: refreshAccount_def split: option.splits)

lemma refreshAccount_addr [simp]:
  "accountAddressMap (refreshAccount env b c) = accountAddressMap c"
  by (simp add: refreshAccount_def Let_def split: option.splits prod.splits)

lemma refreshAccount_other:
  "a \<noteq> b \<Longrightarrow> accountBalanceMap (refreshAccount env b c) a = accountBalanceMap c a"
  by (simp add: refreshAccount_def Let_def split: option.splits prod.splits)

lemma refreshAccount_effects:
  "\<exists>new. effects (refreshAccount env b c) = effects c @ new
         \<and> (b \<noteq> a \<longrightarrow> filter (about a) new = [])"
  by (cases "snd (getBalance env (the (accountAddressMap c b)))")
     (auto simp: refreshAccount_def Let_def split: option.splits prod.splits)

lemma refreshFunc_Nil [simp]: "refreshFunc env [] c = c"
  by (simp add: refreshFunc_def)

lemma refreshFunc_Cons [simp]:
  "refreshFunc env (b # ks) c = refreshFunc env ks (refreshAccount env b c)"
  by (simp add: refreshFunc_def)

lemma refreshFunc_addr [simp]:
  "accountAddressMap (refreshFunc env ks c) = accountAddressMap c"
  by (induction ks arbitrary: c) simp_all

lemma refreshFunc_other:
  "a \<notin> set ks \<Longrightarrow> accountBalanceMap (refreshFunc env ks c) a = accountBalanceMap c a"
  by (induction ks arbitrary: c) (simp_all add: refreshAccount_other)

lemma refreshFunc_effects:
  "\<exists>new. effects (refreshFunc env ks c) = effects c @ new
         \<and> (a \<notin> set ks \<longrightarrow> filter (about a) new = [])"
proof (induction ks arbitrary: c)
  case Nil
  show ?case by simp
next
  case (Cons b ks)
  obtain n1 where n1: "effects (refreshAccount env b c) = effects c @ n1"
      "b \<noteq> a \<longrightarrow> filter (about a) n1 = []"
    using refreshAccount_effects [of env b c a] by blast
  obtain n2 where n2: "effects (refreshFunc env ks (refreshAccount env b c))
        = effects (refreshAccount env b c) @ n2"
      "a \<notin> set ks \<longrightarrow> filter (about a) n2 = []"
    using Cons.IH [of "refreshAccount env b c"] by blast
  have "effects (refreshFunc env (b # ks) c) = effects c @ (n1 @ n2)"
    using n1 n2 by simp
  moreover have "a \<notin> set (b # ks) \<longrightarrow> filter (about a) (n1 @ n2) = []"
    using n1 n2 by auto
  ultimately show ?case by blast
qed

lemma performed_append: "effects c' = effects c @ new \<Longrightarrow> performed c c' = new"
  by (simp add: performed_def)


lemma performed_split:
  "effects c1 = effects c @ n1 \<Longrightarrow> effects c2 = effects c1 @ n2 \<Longrightarrow>
   performed c c2 = n1 @ performed c1 c2"
  by (simp add: performed_def)

lemma refreshAccount_success:
  assumes "accountBalanceMap c a = Some balance"
    and "accountAddressMap c a = Some address"
    and "getBalance env address = (newBalance, None)"
  shows "refreshAccount env a c =
     (if balance \<noteq> newBalance
      then storeBalance a newBalance
             (perform (Send (NewEthBalanceChangeEvent
                [''account'' \<mapsto> PString a, ''address'' \<mapsto> PString address,
                 ''newBalance'' \<mapsto> PFloat newBalance, ''balance'' \<mapsto> PFloat balance])) c)
      else c)"
  using assms by (simp add: refreshAccount_def)

lemma refresh_success_aux:
  assumes "distinct ks" and "account \<in> set ks"
    and "accountBalanceMap c account = Some balance"
    and "accountAddressMap c account = Some address"
    and "getBalance env address = (newBalance, None)"
    and ev: "ev = NewEthBalanceChangeEvent
                   [''account'' \<mapsto> PString account, ''address'' \<mapsto> PString address,
                    ''newBalance'' \<mapsto> PFloat newBalance, ''balance'' \<mapsto> PFloat balance]"
  shows "(balance \<noteq> newBalance \<longrightarrow>
            accountBalanceMap (refreshFunc env ks c) account = Some newBalance
          \<and> filter (about account) (performed c (refreshFunc env ks c))
              = [Send ev, Store account newBalance])
       \<and> (balance = newBalance \<longrightarrow>
            accountBalanceMap (refreshFunc env ks c) account = Some balance
          \<and> filter (about account) (performed c (refreshFunc env ks c)) = [])"
  using assms(1-5)
proof (induction ks arbitrary: c)
  case Nil
  then show ?case by simp
next
  case (Cons b ks)
  let ?c1 = "refreshAccount env b c"
  have about_ev: "about account (Send ev)"
    by (simp add: ev)
  obtain n1 where n1: "effects ?c1 = effects c @ n1"
      "b \<noteq> account \<longrightarrow> filter (about account) n1 = []"
    using refreshAccount_effects [of env b c account] by blast
  obtain n2 where n2: "effects (refreshFunc env ks ?c1) = effects ?c1 @ n2"
      "account \<notin> set ks \<longrightarrow> filter (about account) n2 = []"
    using refreshFunc_effects [of env ks ?c1 account] by blast
  have split: "performed c (refreshFunc env (b # ks) c) = n1 @ performed ?c1 (refreshFunc env ks ?c1)"
    using performed_split [OF n1(1) n2(1)] by simp
  show ?case
  proof (cases "b = account")
    case True
    with Cons.prems have notin: "account \<notin> set ks" by simp
    have c1: "?c1 = (if balance \<noteq> newBalance
      then storeBalance account newBalance (perform (Send ev) c) else c)"
      unfolding True ev by (rule refreshAccount_success [OF Cons.prems(3-5)])
    have rest: "filter (about account) (performed ?c1 (refreshFunc env ks ?c1)) = []"
      using n2 notin performed_append [OF n2(1)] by simp
    have bal: "accountBalanceMap (refreshFunc env (b # ks) c) account = accountBalanceMap ?c1 account"
      using refreshFunc_other [OF notin] by simp
    have n1v: "n1 = performed c ?c1"
      using performed_append [OF n1(1)] by simp
    show ?thesis
    proof (cases "balance = newBalance")
      case True
      with c1 have "?c1 = c" by simp
      with bal split rest n1v Cons.prems(3) True show ?thesis
        by (simp add: performed_def)
    next
      case False
      with c1 have "performed c ?c1 = [Send ev, Store account newBalance]"
        and "accountBalanceMap ?c1 account = Some newBalance"
        by (simp_all add: performed_def)
      with bal split rest n1v False about_ev show ?thesis
        by simp
    qed
  next
    case False
    with Cons.prems have a: "distinct ks" "account \<in> set ks"
        "accountBalanceMap ?c1 account = Some balance"
        "accountAddressMap ?c1 account = Some address"
      by (auto simp: refreshAccount_other)
    from Cons.IH [OF a Cons.prems(5)] split n1(2) False show ?thesis
      by simp
  qed
qed

lemma refreshAccount_alt:
  "refreshAccount env account c =
     (case accountBalanceMap c account of
        None \<Rightarrow> c
      | Some balance \<Rightarrow>
          (case accountAddressMap c account of
             None \<Rightarrow> c
           | Some address \<Rightarrow>
               (let c1 = logError (snd (getBalance env address)) c
                in if balance \<noteq> fst (getBalance env address) then
                     storeBalance account (fst (getBalance env address))
                       (perform (Send (changeEvent account address
                                         (fst (getBalance env address)) balance)) c1)
                   else c1)))"
  by (simp add: refreshAccount_def changeEvent_def Let_def split: option.splits prod.splits)

lemma payload_changeEvent:
  "dom (payload (changeEvent a address nb b)) = {''account'', ''address'', ''newBalance'', ''balance''}"
  "payload (changeEvent a address nb b) ''account'' = Some (PString a)"
  "payload (changeEvent a address nb b) ''address'' = Some (PString address)"
  "payload (changeEvent a address nb b) ''newBalance'' = Some (PFloat nb)"
  "payload (changeEvent a address nb b) ''balance'' = Some (PFloat b)"
  by (auto simp: changeEvent_def)

lemma refreshAccount_sends:
  assumes "Send ev \<in> set (performed c (refreshAccount env b c))"
  shows "\<exists>address balance.
           accountAddressMap c b = Some address \<and> accountBalanceMap c b = Some balance
         \<and> ev = changeEvent b address (fst (getBalance env address)) balance"
proof (cases "accountBalanceMap c b")
  case None
  with assms show ?thesis
    by (simp add: refreshAccount_skip performed_def)
next
  case (Some balance)
  show ?thesis
  proof (cases "accountAddressMap c b")
    case None
    with assms show ?thesis
      by (simp add: refreshAccount_skip performed_def)
  next
    case (Some address)
    from assms \<open>accountBalanceMap c b = Some balance\<close> Some show ?thesis
      by (cases "snd (getBalance env address)")
         (auto simp: refreshAccount_alt performed_def Let_def split: if_splits)
  qed
qed

lemma refreshFunc_sends:
  assumes "distinct ks" and "Send ev \<in> set (performed c (refreshFunc env ks c))"
  shows "\<exists>b \<in> set ks. \<exists>address balance.
           accountAddressMap c b = Some address \<and> accountBalanceMap c b = Some balance
         \<and> ev = changeEvent b address (fst (getBalance env address)) balance"
  using assms
proof (induction ks arbitrary: c)
  case Nil
  then show ?case by (simp add: performed_def)
next
  case (Cons k ks)
  let ?c1 = "refreshAccount env k c"
  obtain n1 where n1: "effects ?c1 = effects c @ n1"
    using refreshAccount_effects [of env k c k] by blast
  obtain n2 where n2: "effects (refreshFunc env ks ?c1) = effects ?c1 @ n2"
    using refreshFunc_effects [of env ks ?c1 k] by blast
  have split: "performed c (refreshFunc env (k # ks) c)
                 = performed c ?c1 @ performed ?c1 (refreshFunc env ks ?c1)"
    using performed_split [OF n1 n2] performed_append [OF n1] by simp
  from Cons.prems(2) split
  consider "Send ev \<in> set (performed c ?c1)"
    | "Send ev \<in> set (performed ?c1 (refreshFunc env ks ?c1))"
    by auto
  then show ?case
  proof cases
    case 1
    from refreshAccount_sends [OF 1] show ?thesis by auto
  next
    case 2
    from Cons.prems have d: "distinct ks" and k: "k \<notin> set ks" by simp_all
    from Cons.IH [OF d 2] obtain b address balance where b: "b \<in> set ks"
      "accountAddressMap ?c1 b = Some address" "accountBalanceMap ?c1 b = Some balance"
      "ev = changeEvent b address (fst (getBalance env address)) balance"
      by blast
    from b(1) k have "b \<noteq> k" by auto
    with b(2,3) have "accountAddressMap c b = Some address" "accountBalanceMap c b = Some balance"
      by (simp_all add: refreshAccount_other)
    with b(4) have ex: "\<exists>address balance.
           accountAddressMap c b = Some address \<and> accountBalanceMap c b = Some balance
         \<and> ev = changeEvent b address (fst (getBalance env address)) balance"
      by blast
    from b(1) have mem: "b \<in> set (k # ks)" by simp
    from ex mem show ?thesis by (rule bexI [where x = b])
  qed
qed

lemma getBalance_node_alice:
  "getBalance (node (Inr 12500000000000000000)) ''0xAAA'' = (25 / 2, None)"
  by (simp add: getBalance_def node_def)

lemma getBalance_node_bob:
  "getBalance (node answer) ''0xBBB'' = (3, None)"
  by (simp add: getBalance_def node_def)

lemma sweep_alice_changed:
  "performed alice_bob
     (refreshFunc (node (Inr 12500000000000000000)) [''alice'', ''bob''] alice_bob)
   = [Send (NewEthBalanceChangeEvent
             [''account'' \<mapsto> PString ''alice'', ''address'' \<mapsto> PString ''0xAAA'',
              ''newBalance'' \<mapsto> PFloat (25 / 2), ''balance'' \<mapsto> PFloat 10]),
      Store ''alice'' (25 / 2)]"
  by (simp add: refreshFunc_def refreshAccount_def getBalance_def node_def alice_bob_def
      performed_def)

section \<open>Facts about NewClient and ListAccountsMinConf\<close>

lemma seedAccount_addr [simp]:
  "accountAddressMap (seedAccount env a c) = accountAddressMap c"
  by (simp add: seedAccount_def Let_def split: option.splits prod.splits)

lemma seedAccount_balance:
  "accountBalanceMap (seedAccount env a c) b =
     (if b = a then (case accountAddressMap c a of
                       None \<Rightarrow> accountBalanceMap c b
                     | Some address \<Rightarrow> Some (fst (getBalance env address)))
      else accountBalanceMap c b)"
  by (simp add: seedAccount_def Let_def split: option.splits prod.splits)

lemma seedAccount_no_send:
  "Send ev \<in> set (effects (seedAccount env a c)) \<longleftrightarrow> Send ev \<in> set (effects c)"
  by (cases "snd (getBalance env (the (accountAddressMap c a)))")
     (auto simp: seedAccount_def Let_def split: option.splits prod.splits)

lemma seed_addr [simp]:
  "accountAddressMap (fold (seedAccount env) ks c) = accountAddressMap c"
  by (induction ks arbitrary: c) simp_all

lemma seed_no_send:
  "Send ev \<in> set (effects (fold (seedAccount env) ks c)) \<longleftrightarrow> Send ev \<in> set (effects c)"
  by (induction ks arbitrary: c) (simp_all add: seedAccount_no_send)

lemma seed_balance:
  "accountBalanceMap (fold (seedAccount env) ks c) b =
     (if b \<in> set ks then (case accountAddressMap c b of
                       None \<Rightarrow> accountBalanceMap c b
                     | Some address \<Rightarrow> Some (fst (getBalance env address)))
      else accountBalanceMap c b)"
proof (induction ks arbitrary: c)
  case Nil
  show ?case by simp
next
  case (Cons k ks)
  show ?case
    by (simp add: Cons.IH seedAccount_balance split: option.splits)
qed

lemma NewClient_Inr:
  assumes "NewClient os env ks = Inr c"
  shows "\<exists>m. loadAccountMap os = Inr m
           \<and> c = fold (seedAccount env) ks
                    \<lparr>accountAddressMap = m, accountBalanceMap = Map.empty, effects = []\<rparr>"
  using assms
  by (auto simp: NewClient_def split: sum.splits if_splits option.splits)

lemma listAccount_client:
  "accountAddressMap (snd (listAccount env a st)) = accountAddressMap (snd st)"
  by (cases st) (simp add: listAccount_def Let_def split: option.splits prod.splits)

lemma listAccount_entry:
  "fst (listAccount env a st) b =
     (if b = a then (case accountAddressMap (snd st) a of
                       None \<Rightarrow> fst st b
                     | Some address \<Rightarrow>
                         (case snd (getBalance env address) of
                            Some e \<Rightarrow> Some 0
                          | None \<Rightarrow> Some (fst (getBalance env address))))
      else fst st b)"
  by (cases st) (simp add: listAccount_def Let_def split: option.splits prod.splits)

lemma list_client:
  "accountAddressMap (snd (fold (listAccount env) ks st)) = accountAddressMap (snd st)"
  by (induction ks arbitrary: st) (simp_all add: listAccount_client)

lemma list_entry:
  "fst (fold (listAccount env) ks st) b =
     (if b \<in> set ks then (case accountAddressMap (snd st) b of
                       None \<Rightarrow> fst st b
                     | Some address \<Rightarrow>
                         (case snd (getBalance env address) of
                            Some e \<Rightarrow> Some 0
                          | None \<Rightarrow> Some (fst (getBalance env address))))
      else fst st b)"
proof (induction ks arbitrary: st)
  case Nil
  show ?case by simp
next
  case (Cons k ks)
  show ?case
    by (simp add: Cons.IH listAccount_entry listAccount_client split: option.splits)
qed

lemma alice_not_hex: "\<not> IsHexAddress ''alice''"
  by (simp add: IsHexAddress_def has0xPrefix_def)

section \<open>The install route: what is stored\<close>

text \<open>
  C4, as the code has it. The handler validates nothing and answers nothing. When the
  body does not bind, nothing is installed, the notifier is as it was and no response
  is written, so the client sees no error. When the body binds, the handler builds the
  receiver from the endpoint as it came (an empty one and one that is no URL
  included), installs it under the generated id and writes no response. This holds
  whatever \<open>NewReceiver\<close> and \<open>InstallReceiver\<close> do.
\<close>

theorem install_unvalidated:
  "(\<forall>err. installHandler newReceiver installReceiver uuidIns (Inl err) noti = (noti, []))
   \<and> (\<forall>params. installHandler newReceiver installReceiver uuidIns (Inr params) noti
         = (installReceiver uuidIns
              (newReceiver (Endpoint params) (SplitN (EventTypes params) '','' (- 1))
                 (RetryCount params)) noti,
            []))"
  by (simp add: installHandler_def)

text \<open>
  The claim C4 as it was stated, that a malformed request is rejected with an error the
  client sees and stores no receiver, fails: a body that does not bind gets no response
  at all, a request with an empty endpoint gets none either, and with the registry of
  the spec its receiver is stored.
\<close>

theorem install_malformed_counterexample:
  "installHandler NewReceiver InstallReceiver ''id-1''
      (Inl (ErrOther ''invalid character'')) \<lparr>receivers = Map.empty\<rparr>
     = (\<lparr>receivers = Map.empty\<rparr>, [])
   \<and> snd (installHandler NewReceiver InstallReceiver ''id-1''
        (Inr \<lparr>RetryCount = 1, Endpoint = '''', EventTypes = ''eth_balance_change_event''\<rparr>)
        \<lparr>receivers = Map.empty\<rparr>) = []
   \<and> receivers (fst (installHandler NewReceiver InstallReceiver ''id-1''
        (Inr \<lparr>RetryCount = 1, Endpoint = '''', EventTypes = ''eth_balance_change_event''\<rparr>)
        \<lparr>receivers = Map.empty\<rparr>)) ''id-1''
     = Some \<lparr>endpoint = '''', eventTypes = [''eth_balance_change_event''], retryCount = 1\<rparr>"
  by (simp add: installHandler_def InstallReceiver_def NewReceiver_def SplitN_def Count_def
      Count_loop.simps)

text \<open>
  C7: for a request that binds, the receiver installed under the generated id has the
  request's endpoint, the request's retryCount as its retry budget, and as event types
  the eventTypes string split at every comma: the pieces joined by commas are the
  string again, no piece holds a comma, and there is one piece more than there are
  commas.
\<close>

theorem install_receiver_fields:
  assumes "bound = Inr params"
  shows "\<exists>r. receivers (fst (installHandler NewReceiver InstallReceiver uuidIns bound noti))
               uuidIns = Some r
           \<and> endpoint r = Endpoint params
           \<and> retryCount r = RetryCount params
           \<and> eventTypes r = SplitN (EventTypes params) '','' (- 1)
           \<and> Join (eventTypes r) '','' = EventTypes params
           \<and> (\<forall>t \<in> set (eventTypes r). CHR '','' \<notin> set t)
           \<and> length (eventTypes r) = Count (EventTypes params) '','' + 1"
  using assms SplitN_all [of "EventTypes params" "CHR '',''"]
  by (simp add: installHandler_def InstallReceiver_def NewReceiver_def)

theorem install_receiver_fields_witness:
  "\<exists>r. receivers (fst (installHandler NewReceiver InstallReceiver ''id-1''
            (Inr \<lparr>RetryCount = 2, Endpoint = ''http://cb.example/hook'',
                  EventTypes = ''eth_balance_change_event,other''\<rparr>)
            \<lparr>receivers = Map.empty\<rparr>)) ''id-1'' = Some r
       \<and> endpoint r = ''http://cb.example/hook''
       \<and> retryCount r = 2
       \<and> eventTypes r = [''eth_balance_change_event'', ''other'']"
  using install_receiver_fields [of "Inr \<lparr>RetryCount = 2, Endpoint = ''http://cb.example/hook'',
                  EventTypes = ''eth_balance_change_event,other''\<rparr>" _ "''id-1''" "\<lparr>receivers = Map.empty\<rparr>"]
  by (auto simp: SplitN_def Count_def Count_loop.simps)

text \<open>
  C9: a request with an empty eventTypes string installs a receiver with exactly one
  event type, the empty string, not with an empty list of types.
\<close>

theorem install_empty_eventTypes:
  "receivers (fst (installHandler NewReceiver InstallReceiver uuidIns
       (Inr \<lparr>RetryCount = rc, Endpoint = ep, EventTypes = ''''\<rparr>) noti)) uuidIns
     = Some \<lparr>endpoint = ep, eventTypes = [''''], retryCount = rc\<rparr>"
  by (simp add: installHandler_def InstallReceiver_def NewReceiver_def SplitN_def Count_def
      Count_loop.simps)

section \<open>The watcher: a sweep\<close>

text \<open>
  C2: in a sweep that visits every key once, for an account of the snapshot whose balance
  lookup succeeds, the balance returned is compared with the stored one by equality.
  If they differ, what the sweep does about the account is exactly: send one event with
  the old and the new balance, then store the new balance, which the snapshot holds
  after the sweep. If they are equal, the sweep sends no event about the account and
  does not write its entry, which is as before.
\<close>

theorem refresh_success_diff:
  assumes "distinct ks" and "account \<in> set ks"
    and "accountBalanceMap c account = Some balance"
    and "accountAddressMap c account = Some address"
    and "getBalance env address = (newBalance, None)"
  shows "(balance \<noteq> newBalance \<longrightarrow>
            accountBalanceMap (refreshFunc env ks c) account = Some newBalance
          \<and> filter (about account) (performed c (refreshFunc env ks c))
              = [Send (NewEthBalanceChangeEvent
                   [''account'' \<mapsto> PString account, ''address'' \<mapsto> PString address,
                    ''newBalance'' \<mapsto> PFloat newBalance, ''balance'' \<mapsto> PFloat balance]),
                 Store account newBalance])
       \<and> (balance = newBalance \<longrightarrow>
            accountBalanceMap (refreshFunc env ks c) account = Some balance
          \<and> filter (about account) (performed c (refreshFunc env ks c)) = [])"
  by (rule refresh_success_aux [OF assms refl])

theorem refresh_success_diff_witness:
  "distinct [''bob'', ''alice''] \<and> ''alice'' \<in> set [''bob'', ''alice'']
   \<and> accountBalanceMap alice_bob ''alice'' = Some 10
   \<and> accountAddressMap alice_bob ''alice'' = Some ''0xAAA''
   \<and> getBalance (node (Inr 12500000000000000000)) ''0xAAA'' = (25 / 2, None)
   \<and> (10::real) \<noteq> 25 / 2
   \<and> accountBalanceMap
        (refreshFunc (node (Inr 12500000000000000000)) [''bob'', ''alice''] alice_bob) ''alice''
       = Some (25 / 2)
   \<and> filter (about ''alice'')
        (performed alice_bob
           (refreshFunc (node (Inr 12500000000000000000)) [''bob'', ''alice''] alice_bob))
       = [Send (NewEthBalanceChangeEvent
                 [''account'' \<mapsto> PString ''alice'', ''address'' \<mapsto> PString ''0xAAA'',
                  ''newBalance'' \<mapsto> PFloat (25 / 2), ''balance'' \<mapsto> PFloat 10]),
          Store ''alice'' (25 / 2)]
   \<and> accountBalanceMap alice_bob ''bob'' = Some 3
   \<and> getBalance (node (Inr 12500000000000000000)) ''0xBBB'' = (3, None)
   \<and> accountBalanceMap
        (refreshFunc (node (Inr 12500000000000000000)) [''bob'', ''alice''] alice_bob) ''bob''
       = Some 3
   \<and> filter (about ''bob'')
        (performed alice_bob
           (refreshFunc (node (Inr 12500000000000000000)) [''bob'', ''alice''] alice_bob))
       = []"
proof -
  have d: "distinct [''bob'', ''alice'']" by simp
  have a: "''alice'' \<in> set [''bob'', ''alice'']" and b: "''bob'' \<in> set [''bob'', ''alice'']"
    by simp_all
  have ba: "accountBalanceMap alice_bob ''alice'' = Some 10"
    and aa: "accountAddressMap alice_bob ''alice'' = Some ''0xAAA''"
    and bb: "accountBalanceMap alice_bob ''bob'' = Some 3"
    and ab: "accountAddressMap alice_bob ''bob'' = Some ''0xBBB''"
    by (simp_all add: alice_bob_def)
  have ne: "(10::real) \<noteq> 25 / 2" by simp
  from refresh_success_diff [OF d a ba aa getBalance_node_alice]
       refresh_success_diff [OF d b bb ab getBalance_node_bob]
       ne d a ba aa bb getBalance_node_alice getBalance_node_bob
  show ?thesis by simp
qed

text \<open>
  C1 fails on the code. When the lookup fails, \<open>getBalance\<close> returns the balance \<open>0\<close> with
  the error; the watcher logs the error and goes on to the comparison with that \<open>0\<close>
  instead of going to the next account. With alice at 10 and a node that refuses the
  connection, the sweep logs the error, sends an event from 10 to 0 and stores 0.
\<close>

theorem refresh_lookup_failure_publishes:
  "getBalance (node (Inl (ErrOther ''connection refused''))) ''0xAAA''
     = (0, Some (ErrOther ''connection refused''))
   \<and> accountBalanceMap
        (refreshFunc (node (Inl (ErrOther ''connection refused''))) [''alice'', ''bob''] alice_bob)
        ''alice'' = Some 0
   \<and> performed alice_bob
        (refreshFunc (node (Inl (ErrOther ''connection refused''))) [''alice'', ''bob''] alice_bob)
       = [Log (ErrOther ''connection refused''),
          Send (NewEthBalanceChangeEvent
                 [''account'' \<mapsto> PString ''alice'', ''address'' \<mapsto> PString ''0xAAA'',
                  ''newBalance'' \<mapsto> PFloat 0, ''balance'' \<mapsto> PFloat 10]),
          Store ''alice'' 0]"
  by (simp add: refreshFunc_def refreshAccount_def getBalance_def node_def alice_bob_def
      performed_def logError_def perform_def storeBalance_def)

text \<open>
  C3, as the code has it: the payload of every event a sweep sends has exactly the keys
  \<open>account\<close>, \<open>address\<close>, \<open>newBalance\<close> and \<open>balance\<close>. The account is one the sweep
  visits, \<open>address\<close> is its address, \<open>balance\<close> is its snapshot value before the sweep,
  and \<open>newBalance\<close> is the balance looked up, when the lookup succeeds.
\<close>

theorem refresh_event_payload:
  assumes "distinct ks" and "Send ev \<in> set (performed c (refreshFunc env ks c))"
  shows "dom (payload ev) = {''account'', ''address'', ''newBalance'', ''balance''}
       \<and> (\<exists>account address balance.
             account \<in> set ks
           \<and> accountAddressMap c account = Some address
           \<and> accountBalanceMap c account = Some balance
           \<and> payload ev ''account'' = Some (PString account)
           \<and> payload ev ''address'' = Some (PString address)
           \<and> payload ev ''balance'' = Some (PFloat balance)
           \<and> (\<forall>wei. eth_getBalance env (HexToAddress env address) = Inr wei \<longrightarrow>
                  payload ev ''newBalance'' = Some (PFloat (weiToEther env wei))))"
proof -
  from refreshFunc_sends [OF assms] obtain b address balance where b: "b \<in> set ks"
      "accountAddressMap c b = Some address" "accountBalanceMap c b = Some balance"
      "ev = changeEvent b address (fst (getBalance env address)) balance"
    by blast
  have dom: "dom (payload ev) = {''account'', ''address'', ''newBalance'', ''balance''}"
    unfolding b(4) by (rule payload_changeEvent)
  have nb: "\<forall>wei. eth_getBalance env (HexToAddress env address) = Inr wei \<longrightarrow>
                  payload ev ''newBalance'' = Some (PFloat (weiToEther env wei))"
    unfolding b(4) by (simp add: getBalance_def payload_changeEvent)
  have "payload ev ''account'' = Some (PString b)"
    "payload ev ''address'' = Some (PString address)"
    "payload ev ''balance'' = Some (PFloat balance)"
    unfolding b(4) by (simp_all add: payload_changeEvent)
  with dom nb b(1-3) show ?thesis by blast
qed

theorem refresh_event_payload_witness:
  "distinct [''alice'', ''bob'']
   \<and> Send (NewEthBalanceChangeEvent
             [''account'' \<mapsto> PString ''alice'', ''address'' \<mapsto> PString ''0xAAA'',
              ''newBalance'' \<mapsto> PFloat (25 / 2), ''balance'' \<mapsto> PFloat 10])
     \<in> set (performed alice_bob
           (refreshFunc (node (Inr 12500000000000000000)) [''alice'', ''bob''] alice_bob))
   \<and> dom (payload (NewEthBalanceChangeEvent
             [''account'' \<mapsto> PString ''alice'', ''address'' \<mapsto> PString ''0xAAA'',
              ''newBalance'' \<mapsto> PFloat (25 / 2), ''balance'' \<mapsto> PFloat 10]))
       = {''account'', ''address'', ''newBalance'', ''balance''}
   \<and> eth_getBalance (node (Inr 12500000000000000000))
        (HexToAddress (node (Inr 12500000000000000000)) ''0xAAA'') = Inr 12500000000000000000"
proof -
  have d: "distinct [''alice'', ''bob'']" by simp
  have m: "Send (NewEthBalanceChangeEvent
             [''account'' \<mapsto> PString ''alice'', ''address'' \<mapsto> PString ''0xAAA'',
              ''newBalance'' \<mapsto> PFloat (25 / 2), ''balance'' \<mapsto> PFloat 10])
     \<in> set (performed alice_bob
           (refreshFunc (node (Inr 12500000000000000000)) [''alice'', ''bob''] alice_bob))"
    by (subst sweep_alice_changed) simp
  have n: "eth_getBalance (node (Inr 12500000000000000000))
        (HexToAddress (node (Inr 12500000000000000000)) ''0xAAA'') = Inr 12500000000000000000"
    by (simp add: node_def)
  have dm: "dom (payload (NewEthBalanceChangeEvent
             [''account'' \<mapsto> PString ''alice'', ''address'' \<mapsto> PString ''0xAAA'',
              ''newBalance'' \<mapsto> PFloat (25 / 2), ''balance'' \<mapsto> PFloat 10]))
       = {''account'', ''address'', ''newBalance'', ''balance''}"
    by (rule refresh_event_payload [OF d m, THEN conjunct1])
  from d m dm n show ?thesis by - (intro conjI; assumption)
qed

text \<open>
  The claim C3 as it was stated names the key \<open>oldBalance\<close>. The event the sweep sends
  for alice has no such key: the old balance is under \<open>balance\<close>.
\<close>

theorem refresh_event_payload_counterexample:
  "Send (NewEthBalanceChangeEvent
             [''account'' \<mapsto> PString ''alice'', ''address'' \<mapsto> PString ''0xAAA'',
              ''newBalance'' \<mapsto> PFloat (25 / 2), ''balance'' \<mapsto> PFloat 10])
     \<in> set (performed alice_bob
           (refreshFunc (node (Inr 12500000000000000000)) [''alice'', ''bob''] alice_bob))
   \<and> payload (NewEthBalanceChangeEvent
             [''account'' \<mapsto> PString ''alice'', ''address'' \<mapsto> PString ''0xAAA'',
              ''newBalance'' \<mapsto> PFloat (25 / 2), ''balance'' \<mapsto> PFloat 10]) ''oldBalance'' = None
   \<and> dom (payload (NewEthBalanceChangeEvent
             [''account'' \<mapsto> PString ''alice'', ''address'' \<mapsto> PString ''0xAAA'',
              ''newBalance'' \<mapsto> PFloat (25 / 2), ''balance'' \<mapsto> PFloat 10]))
       \<noteq> {''account'', ''address'', ''oldBalance'', ''newBalance''}"
proof (intro conjI)
  let ?ev = "NewEthBalanceChangeEvent
             [''account'' \<mapsto> PString ''alice'', ''address'' \<mapsto> PString ''0xAAA'',
              ''newBalance'' \<mapsto> PFloat (25 / 2), ''balance'' \<mapsto> PFloat 10]"
  show "Send ?ev \<in> set (performed alice_bob
           (refreshFunc (node (Inr 12500000000000000000)) [''alice'', ''bob''] alice_bob))"
    by (subst sweep_alice_changed) simp
  show "payload ?ev ''oldBalance'' = None"
    by simp
  have a: "''balance'' \<in> dom (payload ?ev)"
    by simp
  have b: "''balance'' \<notin> {''account'', ''address'', ''oldBalance'', ''newBalance''}"
    by simp
  show "dom (payload ?ev) \<noteq> {''account'', ''address'', ''oldBalance'', ''newBalance''}"
  proof
    assume eq: "dom (payload ?ev) = {''account'', ''address'', ''oldBalance'', ''newBalance''}"
    from a have "''balance'' \<in> {''account'', ''address'', ''oldBalance'', ''newBalance''}"
      unfolding eq .
    with b show False by (rule notE)
  qed
qed

section \<open>NewClient: the seed of the snapshot\<close>

text \<open>
  C6: when \<open>NewClient\<close> returns a client, its loop over the account-address map has
  filled the snapshot by one balance lookup per account: the snapshot has an entry for
  exactly the accounts of the map, each entry is the balance \<open>getBalance\<close> returned for
  the account's address, and no event has been sent.
\<close>

theorem NewClient_seeds_snapshot:
  assumes "NewClient os env ks = Inr c"
    and "set ks = dom (accountAddressMap c)"
  shows "dom (accountBalanceMap c) = dom (accountAddressMap c)
       \<and> (\<forall>account address. accountAddressMap c account = Some address \<longrightarrow>
             accountBalanceMap c account = Some (fst (getBalance env address)))
       \<and> (\<forall>ev. Send ev \<notin> set (effects c))"
proof -
  from NewClient_Inr [OF assms(1)] obtain m where m: "loadAccountMap os = Inr m"
    and c: "c = fold (seedAccount env) ks
                    \<lparr>accountAddressMap = m, accountBalanceMap = Map.empty, effects = []\<rparr>"
    by blast
  have am: "accountAddressMap c = m"
    by (simp add: c)
  have bal: "\<And>b. accountBalanceMap c b =
     (if b \<in> set ks then (case m b of None \<Rightarrow> None
                     | Some address \<Rightarrow> Some (fst (getBalance env address)))
      else None)"
    by (simp add: c seed_balance split: option.splits)
  have nosend: "\<forall>ev. Send ev \<notin> set (effects c)"
    by (simp add: c seed_no_send)
  have each: "\<forall>account address. accountAddressMap c account = Some address \<longrightarrow>
             accountBalanceMap c account = Some (fst (getBalance env address))"
  proof (intro allI impI)
    fix account address
    assume a: "accountAddressMap c account = Some address"
    then have "account \<in> set ks" using assms(2) by auto
    with a am show "accountBalanceMap c account = Some (fst (getBalance env address))"
      by (simp add: bal)
  qed
  have "dom (accountBalanceMap c) = dom (accountAddressMap c)"
  proof (rule set_eqI)
    fix x
    show "x \<in> dom (accountBalanceMap c) \<longleftrightarrow> x \<in> dom (accountAddressMap c)"
      using assms(2) am by (auto simp: bal dom_def split: if_splits option.splits)
  qed
  with each nosend show ?thesis by blast
qed


theorem NewClient_seeds_snapshot_witness:
  "NewClient \<lparr>statAccountFile = Inr True,
              loadAccountMap = Inr [''alice'' \<mapsto> ''0xAAA'', ''bob'' \<mapsto> ''0xBBB''],
              statWalletDir = Inr True, rpcDial = None, openLogFile = None\<rparr>
      (node (Inl (ErrOther ''connection refused''))) [''bob'', ''alice'']
    = Inr \<lparr>accountAddressMap = [''alice'' \<mapsto> ''0xAAA'', ''bob'' \<mapsto> ''0xBBB''],
           accountBalanceMap = [''bob'' \<mapsto> 3, ''alice'' \<mapsto> 0],
           effects = [Store ''bob'' 3, Log (ErrOther ''connection refused''), Store ''alice'' 0]\<rparr>
   \<and> set [''bob'', ''alice''] = dom [''alice'' \<mapsto> ''0xAAA'', ''bob'' \<mapsto> ''0xBBB'']
   \<and> dom [''bob'' \<mapsto> (3::real), ''alice'' \<mapsto> 0] = dom [''alice'' \<mapsto> ''0xAAA'', ''bob'' \<mapsto> ''0xBBB'']"
proof -
  let ?c = "\<lparr>accountAddressMap = [''alice'' \<mapsto> ''0xAAA'', ''bob'' \<mapsto> ''0xBBB''],
           accountBalanceMap = [''bob'' \<mapsto> 3, ''alice'' \<mapsto> 0],
           effects = [Store ''bob'' 3, Log (ErrOther ''connection refused''), Store ''alice'' 0]\<rparr>"
  have run: "NewClient \<lparr>statAccountFile = Inr True,
              loadAccountMap = Inr [''alice'' \<mapsto> ''0xAAA'', ''bob'' \<mapsto> ''0xBBB''],
              statWalletDir = Inr True, rpcDial = None, openLogFile = None\<rparr>
      (node (Inl (ErrOther ''connection refused''))) [''bob'', ''alice''] = Inr ?c"
    by (simp add: NewClient_def seedAccount_def getBalance_def node_def)
  have ks: "set [''bob'', ''alice''] = dom (accountAddressMap ?c)"
    by auto
  from NewClient_seeds_snapshot [OF run ks, THEN conjunct1] run ks
  show ?thesis by simp
qed

section \<open>ListAccountsMinConf\<close>

text \<open>
  C10: \<open>ListAccountsMinConf\<close> returns a nil error on every input. When its loop visits
  the accounts of the account-address map, the map returned has an entry for exactly
  these accounts: the balance looked up, and \<open>0\<close> for an account whose lookup fails.
  One failing lookup takes no other account out of the listing.
\<close>

theorem ListAccountsMinConf_total:
  assumes "set ks = dom (accountAddressMap c)"
  shows "snd (fst (ListAccountsMinConf env ks conf c)) = None
       \<and> dom (fst (fst (ListAccountsMinConf env ks conf c))) = dom (accountAddressMap c)
       \<and> (\<forall>name address. accountAddressMap c name = Some address \<longrightarrow>
             fst (fst (ListAccountsMinConf env ks conf c)) name
               = (case snd (getBalance env address) of
                    Some err \<Rightarrow> Some 0
                  | None \<Rightarrow> Some (fst (getBalance env address))))"
proof -
  obtain accounts c' where f: "fold (listAccount env) ks (Map.empty, c) = (accounts, c')"
    by (cases "fold (listAccount env) ks (Map.empty, c)")
  have r: "ListAccountsMinConf env ks conf c = ((accounts, None), c')"
    by (simp add: ListAccountsMinConf_def f)
  have e: "\<And>b. accounts b =
     (if b \<in> set ks then (case accountAddressMap c b of
                       None \<Rightarrow> None
                     | Some address \<Rightarrow>
                         (case snd (getBalance env address) of
                            Some e \<Rightarrow> Some 0
                          | None \<Rightarrow> Some (fst (getBalance env address))))
      else None)"
    using list_entry [of env ks "(Map.empty, c)"] by (simp add: f split: option.splits)
  have each: "\<forall>name address. accountAddressMap c name = Some address \<longrightarrow>
             accounts name = (case snd (getBalance env address) of
                    Some err \<Rightarrow> Some 0
                  | None \<Rightarrow> Some (fst (getBalance env address)))"
  proof (intro allI impI)
    fix name address
    assume a: "accountAddressMap c name = Some address"
    then have "name \<in> set ks" using assms by auto
    with a show "accounts name = (case snd (getBalance env address) of
                    Some err \<Rightarrow> Some 0
                  | None \<Rightarrow> Some (fst (getBalance env address)))"
      by (simp add: e)
  qed
  have "dom accounts = dom (accountAddressMap c)"
  proof (rule set_eqI)
    fix x
    show "x \<in> dom accounts \<longleftrightarrow> x \<in> dom (accountAddressMap c)"
      using assms by (auto simp: e dom_def split: if_splits option.splits)
  qed
  with each show ?thesis by (simp add: r)
qed

theorem ListAccountsMinConf_total_witness:
  "set [''alice'', ''bob''] = dom (accountAddressMap alice_bob)
   \<and> snd (getBalance (node (Inl (ErrOther ''connection refused''))) ''0xAAA'')
       = Some (ErrOther ''connection refused'')
   \<and> fst (ListAccountsMinConf (node (Inl (ErrOther ''connection refused'')))
            [''alice'', ''bob''] 6 alice_bob)
       = ([''alice'' \<mapsto> 0, ''bob'' \<mapsto> 3], None)"
proof -
  have ks: "set [''alice'', ''bob''] = dom (accountAddressMap alice_bob)"
    by (auto simp: alice_bob_def)
  have g: "snd (getBalance (node (Inl (ErrOther ''connection refused''))) ''0xAAA'')
       = Some (ErrOther ''connection refused'')"
    by (simp add: getBalance_def node_def)
  have v: "fst (ListAccountsMinConf (node (Inl (ErrOther ''connection refused'')))
            [''alice'', ''bob''] 6 alice_bob)
       = ([''alice'' \<mapsto> 0, ''bob'' \<mapsto> 3], None)"
    by (simp add: ListAccountsMinConf_def listAccount_def getBalance_def node_def alice_bob_def)
  from ListAccountsMinConf_total [OF ks, of "node (Inl (ErrOther ''connection refused''))" 6] ks g v
  show ?thesis by simp
qed

section \<open>SendFrom with an account name\<close>

text \<open>
  C8: when the \<open>account\<close> argument is not a hex address, \<open>SendFrom\<close> returns
  \<open>ErrInvalidAddress\<close> and does nothing else: no transaction is sent, whether or not
  the account is in the account-address map, since the address found there is bound to
  a variable of the inner block and never read.
\<close>

theorem SendFrom_account_name:
  assumes "\<not> IsHexAddress account"
  shows "SendFrom env c account hexToAddress amt = (Some ErrInvalidAddress, [])"
  using assms by (simp add: SendFrom_def split: option.splits)

theorem SendFrom_account_name_witness:
  "\<not> IsHexAddress ''alice''
   \<and> accountAddressMap
        (alice_bob\<lparr>accountAddressMap := [''alice'' \<mapsto> ''0x00000000000000000000000000000000000000aa'']\<rparr>)
        ''alice'' = Some ''0x00000000000000000000000000000000000000aa''
   \<and> IsHexAddress ''0x00000000000000000000000000000000000000aa''
   \<and> IsHexAddress ''0x00000000000000000000000000000000000000bb''
   \<and> SendFrom (node (Inr 0))
        (alice_bob\<lparr>accountAddressMap := [''alice'' \<mapsto> ''0x00000000000000000000000000000000000000aa'']\<rparr>)
        ''alice'' ''0x00000000000000000000000000000000000000bb'' 1
      = (Some ErrInvalidAddress, [])"
proof -
  have h: "IsHexAddress ''0x00000000000000000000000000000000000000aa''"
    "IsHexAddress ''0x00000000000000000000000000000000000000bb''"
    by (simp_all add: IsHexAddress_def has0xPrefix_def isHex_def isHexCharacter_def)
  from SendFrom_account_name [OF alice_not_hex] alice_not_hex h
  show ?thesis by simp
qed

end
